theory Spec2Isabelle
  imports Main "HOL-Library.Word"
begin

unbundle bit_operations_syntax

section \<open>Data model\<close>

text \<open>
  The autogenerated notification route of \<^verbatim>\<open>pkg/services/ngalert/notifier/autogen_alertmanager.go\<close>.
  Go values are modelled as follows: \<^verbatim>\<open>data.Fingerprint\<close> (a \<^verbatim>\<open>uint64\<close>) is a 64-bit word,
  \<^verbatim>\<open>model.Duration\<close> (an \<^verbatim>\<open>int64\<close>) the 64-bit word of its two's complement
  representation (\<open>sint\<close> reads it), a nilable pointer an \<open>option\<close>, a
  slice a list (a nil slice and an empty slice are both \<open>[]\<close>), and a Go \<^verbatim>\<open>map\<close> that the code
  ranges over an association list with distinct keys, whose order is the order in which the
  \<^verbatim>\<open>range\<close> statement (or \<^verbatim>\<open>maps.Keys\<close>) happens to visit the entries.
  A Go result \<^verbatim>\<open>(T, error)\<close> is the pair of the value and an \<open>error option\<close>
  (\<open>None\<close> is the nil error).
\<close>

type_synonym Fingerprint = "64 word"
type_synonym int64 = "64 word"
type_synonym Duration = int64

text \<open>Errors: \<^verbatim>\<open>errors.New(msg)\<close> and \<^verbatim>\<open>fmt.Errorf(msg + "%w", err)\<close>, which wraps \<^verbatim>\<open>err\<close>.\<close>

datatype error = errors_New string | Errorf_w string error

text \<open>\<^verbatim>\<open>labels.MatchType\<close> and \<^verbatim>\<open>labels.Matcher\<close> of the Alertmanager library.\<close>

datatype MatchType = MatchEqual | MatchNotEqual | MatchRegexp | MatchNotRegexp

datatype Matcher = Matcher (Type: MatchType) (Name: string) (Value: string)

text \<open>
  \<^verbatim>\<open>definitions.Route\<close>, with the fields this file reads or writes. The constructor takes them
  in the order Receiver, ObjectMatchers, Continue, GroupByStr, MuteTimeIntervals, GroupWait,
  GroupInterval, RepeatInterval, Routes; a field that a Go struct literal leaves out has its
  zero value.
\<close>

datatype Route = Route
  (Receiver: string)
  (ObjectMatchers: "Matcher list")
  (Continue: bool)
  (GroupByStr: "string list")
  (MuteTimeIntervals: "string list")
  (GroupWait: "Duration option")
  (GroupInterval: "Duration option")
  (RepeatInterval: "Duration option")
  (Routes: "Route list")

text \<open>The two assignments to fields of a route that the code performs.\<close>

fun set_Receiver :: "Route \<Rightarrow> string \<Rightarrow> Route" where
  "set_Receiver (Route.Route rc om co gb mt gw gi ri rs) rc' = Route.Route rc' om co gb mt gw gi ri rs"

fun set_Routes :: "Route \<Rightarrow> Route list \<Rightarrow> Route" where
  "set_Routes (Route.Route rc om co gb mt gw gi ri rs) rs' = Route.Route rc om co gb mt gw gi ri rs'"

text \<open>
  \<^verbatim>\<open>models.NotificationSettings\<close>: the fields that \<^verbatim>\<open>generateRouteFromSettings\<close> reads.
\<close>

record NotificationSettings =
  Receiver :: string
  GroupBy :: "string list"
  GroupWait :: "Duration option"
  GroupInterval :: "Duration option"
  RepeatInterval :: "Duration option"
  MuteTimeIntervals :: "string list"

text \<open>The zero value, which indexing a Go map yields for an absent key.\<close>

definition NotificationSettings_zero :: NotificationSettings where
  "NotificationSettings_zero =
     \<lparr>NotificationSettings.Receiver = [], GroupBy = [], GroupWait = None,
      GroupInterval = None, RepeatInterval = None, MuteTimeIntervals = []\<rparr>"

text \<open>
  Modelled from the spec: \<^verbatim>\<open>NotificationSettings.IsAllDefault\<close> is declared in
  \<^verbatim>\<open>pkg/services/ngalert/models\<close>, which is not among the sources. The specification defines
  it as: true iff every optional field (group-by list, mute-time-interval references,
  group-wait, group-interval and repeat-interval durations) is unset/zero.
\<close>

definition IsAllDefault :: "NotificationSettings \<Rightarrow> bool" where
  "IsAllDefault s \<longleftrightarrow>
     length (GroupBy s) = 0 \<and> NotificationSettings.GroupWait s = None \<and>
     NotificationSettings.GroupInterval s = None \<and> NotificationSettings.RepeatInterval s = None \<and>
     length (NotificationSettings.MuteTimeIntervals s) = 0"

record AlertRuleKey =
  OrgID :: int64
  UID :: string

record autogeneratedRoute =
  Route :: "Route option"
  Fingerprint :: Fingerprint

text \<open>The zero value \<^verbatim>\<open>autogeneratedRoute{}\<close>.\<close>

definition autogeneratedRoute_zero :: autogeneratedRoute where
  "autogeneratedRoute_zero = \<lparr>autogeneratedRoute.Route = None, Fingerprint = 0\<rparr>"

text \<open>
  \<^verbatim>\<open>definitions.PostableUserConfig\<close>: \<^verbatim>\<open>AddToConfig\<close> touches only
  \<^verbatim>\<open>config.AlertmanagerConfig.Route\<close>, a pointer to the root route.
\<close>

record PostableApiAlertingConfig =
  Route :: "Route option"

record PostableUserConfig =
  AlertmanagerConfig :: PostableApiAlertingConfig

text \<open>
  What the file takes from other packages, as parameters: the label names of
  \<^verbatim>\<open>models\<close> and \<^verbatim>\<open>model\<close>, the constructor \<^verbatim>\<open>labels.NewMatcher\<close> (which may return an
  error), the method \<^verbatim>\<open>NotificationSettings.Fingerprint\<close> and the method
  \<^verbatim>\<open>data.Fingerprint.String\<close>.
\<close>

record externals =
  AutogeneratedRouteLabel :: string
  AutogeneratedRouteReceiverNameLabel :: string
  AutogeneratedRouteSettingsHashLabel :: string
  FolderTitleLabel :: string
  AlertNameLabel :: string
  NewMatcher :: "MatchType \<Rightarrow> string \<Rightarrow> string \<Rightarrow> error + Matcher"
  Fingerprint :: "NotificationSettings \<Rightarrow> Fingerprint"
  Fingerprint_String :: "Fingerprint \<Rightarrow> string"

text \<open>The interfaces \<^verbatim>\<open>autogenRuleStore\<close> and \<^verbatim>\<open>notificaitonSettingsValidator\<close>.\<close>

record autogenRuleStore =
  ListNotificationSettings ::
    "int64 \<Rightarrow> (AlertRuleKey \<times> NotificationSettings list) list \<times> error option"

record notificaitonSettingsValidator =
  Validate :: "NotificationSettings \<Rightarrow> error option"

text \<open>The logger: the sequence of entries written, each a message, a rule key and an error.\<close>

type_synonym Logger = "(string \<times> AlertRuleKey \<times> error) list"

type_synonym settings_map = "(Fingerprint \<times> NotificationSettings) list"

section \<open>The aggregate fingerprint\<close>

text \<open>
  \<^verbatim>\<open>hash/fnv\<close>, \<^verbatim>\<open>fnv.New64()\<close>: the 64-bit FNV-1 hash. \<^verbatim>\<open>Write\<close> multiplies the state by
  the prime and then xors the byte in, for each byte in turn.
\<close>

definition offset64 :: "64 word" where
  "offset64 = 14695981039346656037"

definition prime64 :: "64 word" where
  "prime64 = 1099511628211"

fun fnv64_Write :: "64 word \<Rightarrow> 8 word list \<Rightarrow> 64 word" where
  "fnv64_Write h [] = h"
| "fnv64_Write h (c # cs) = fnv64_Write ((h * prime64) XOR ucast c) cs"

text \<open>\<^verbatim>\<open>binary.LittleEndian.PutUint64\<close>: the eight bytes of a value, lowest first.\<close>

definition PutUint64 :: "64 word \<Rightarrow> 8 word list" where
  "PutUint64 v = map (\<lambda>i. ucast (drop_bit (8 * i) v)) [0 ..< 8]"

definition hash_write :: "64 word \<Rightarrow> Fingerprint \<Rightarrow> 64 word" where
  "hash_write h fp = fnv64_Write (fnv64_Write h (PutUint64 fp)) [255]"

definition calculateAutogeneratedRouteHash :: "Fingerprint list \<Rightarrow> Fingerprint" where
  "calculateAutogeneratedRouteHash fp = foldl hash_write offset64 fp"

section \<open>Building the route\<close>

text \<open>\<^verbatim>\<open>settings[fingerprint]\<close> on a Go map.\<close>

definition index_settings :: "settings_map \<Rightarrow> Fingerprint \<Rightarrow> NotificationSettings" where
  "index_settings settings fingerprint =
     (case map_of settings fingerprint of Some s \<Rightarrow> s | None \<Rightarrow> NotificationSettings_zero)"

text \<open>
  The loop of \<^verbatim>\<open>generateRouteFromSettings\<close> keeps \<^verbatim>\<open>receiverRoutes\<close>, a map from receiver name
  to a pointer to a route, and \<^verbatim>\<open>autoGenRoot.Routes\<close>, a slice of pointers to the same routes:
  each receiver route is allocated once and appended to the slice at once, so the pointer is
  modelled as the position of the route in that slice, and an append through the pointer as
  an update of the slice at that position. That every pointer the loop follows is a position
  inside the slice is part of the invariant \<open>loop_inv\<close> proved below.

  Lines 87 to 103: look the receiver route up, or create it.
\<close>

type_synonym loop_state = "(string \<rightharpoonup> nat) \<times> Route list"

definition receiverRoute_for ::
  "externals \<Rightarrow> NotificationSettings \<Rightarrow> loop_state \<Rightarrow> error + (nat \<times> loop_state)" where
  "receiverRoute_for E s st =
     (case st of (receiverRoutes, routes) \<Rightarrow>
        (case receiverRoutes (NotificationSettings.Receiver s) of
           Some receiverRoute \<Rightarrow> Inr (receiverRoute, receiverRoutes, routes)
         | None \<Rightarrow>
             (case NewMatcher E MatchEqual (AutogeneratedRouteReceiverNameLabel E)
                     (NotificationSettings.Receiver s) of
                Inl err \<Rightarrow> Inl err
              | Inr contactMatcher \<Rightarrow>
                  Inr (length routes,
                       receiverRoutes(NotificationSettings.Receiver s \<mapsto> length routes),
                       routes @ [Route.Route (NotificationSettings.Receiver s) [contactMatcher] True
                                   [FolderTitleLabel E, AlertNameLabel E] [] None None None []]))))"

text \<open>Lines 113 to 123: the route of one combination of optional settings.\<close>

definition settings_route :: "NotificationSettings \<Rightarrow> Matcher \<Rightarrow> Route" where
  "settings_route s settingMatcher =
     Route.Route (NotificationSettings.Receiver s) [settingMatcher] False
       (GroupBy s) (NotificationSettings.MuteTimeIntervals s)
       (NotificationSettings.GroupWait s) (NotificationSettings.GroupInterval s)
       (NotificationSettings.RepeatInterval s) []"

text \<open>One iteration of the loop over the sorted keys (lines 86 to 123).\<close>

definition loop_body ::
  "externals \<Rightarrow> settings_map \<Rightarrow> Fingerprint \<Rightarrow> loop_state \<Rightarrow> error + loop_state" where
  "loop_body E settings fingerprint st =
     (let s = index_settings settings fingerprint in
      case receiverRoute_for E s st of
        Inl err \<Rightarrow> Inl err
      | Inr (receiverRoute, receiverRoutes, routes) \<Rightarrow>
          if IsAllDefault s then Inr (receiverRoutes, routes)
          else
            (case NewMatcher E MatchEqual (AutogeneratedRouteSettingsHashLabel E)
                    (Fingerprint_String E (externals.Fingerprint E s)) of
               Inl err \<Rightarrow> Inl err
             | Inr settingMatcher \<Rightarrow>
                 Inr (receiverRoutes,
                      routes[receiverRoute :=
                        set_Routes (routes ! receiverRoute)
                          (Route.Routes (routes ! receiverRoute) @ [settings_route s settingMatcher])])))"

fun settings_loop ::
  "externals \<Rightarrow> settings_map \<Rightarrow> Fingerprint list \<Rightarrow> loop_state \<Rightarrow> error + loop_state" where
  "settings_loop E settings [] st = Inr st"
| "settings_loop E settings (fingerprint # keys) st =
     (case loop_body E settings fingerprint st of
        Inl err \<Rightarrow> Inl err
      | Inr st' \<Rightarrow> settings_loop E settings keys st')"

definition generateRouteFromSettings ::
  "externals \<Rightarrow> string \<Rightarrow> settings_map \<Rightarrow> autogeneratedRoute \<times> error option" where
  "generateRouteFromSettings E defaultReceiver settings =
     (let keys = sort (map fst settings) in
      case NewMatcher E MatchEqual (AutogeneratedRouteLabel E) ''true'' of
        Inl err \<Rightarrow> (autogeneratedRoute_zero, Some err)
      | Inr rootMatcher \<Rightarrow>
          (case settings_loop E settings keys (Map.empty, []) of
             Inl err \<Rightarrow> (autogeneratedRoute_zero, Some err)
           | Inr (receiverRoutes, routes) \<Rightarrow>
               (\<lparr>autogeneratedRoute.Route =
                    Some (Route.Route defaultReceiver [rootMatcher] False [] [] None None None routes),
                  Fingerprint = calculateAutogeneratedRouteHash keys\<rparr>, None)))"

section \<open>Collecting the settings\<close>

text \<open>
  The inner loop of \<^verbatim>\<open>newAutogeneratedRoute\<close> (lines 34 to 46) over the settings of one rule.
  The map \<^verbatim>\<open>notificationSettings\<close> is kept in insertion order.
\<close>

fun rule_loop ::
  "notificaitonSettingsValidator \<Rightarrow> externals \<Rightarrow> AlertRuleKey \<Rightarrow> NotificationSettings list \<Rightarrow>
   settings_map \<times> Logger \<Rightarrow> settings_map \<times> Logger" where
  "rule_loop validator E ruleKey [] st = st"
| "rule_loop validator E ruleKey (setting # ruleSettings) (notificationSettings, logger) =
     (case Validate validator setting of
        Some err \<Rightarrow>
          rule_loop validator E ruleKey ruleSettings
            (notificationSettings,
             logger @ [(''Rule notification settings are invalid. Skipping'', ruleKey, err)])
      | None \<Rightarrow>
          (let fp = externals.Fingerprint E setting in
           if map_of notificationSettings fp \<noteq> None
           then rule_loop validator E ruleKey ruleSettings (notificationSettings, logger)
           else rule_loop validator E ruleKey ruleSettings
                  (notificationSettings @ [(fp, setting)], logger)))"

text \<open>
  The outer loop (line 33) over the rules: the store result is the list of its entries in
  the order in which the \<^verbatim>\<open>range\<close> statement visits them.
\<close>

fun rules_loop ::
  "notificaitonSettingsValidator \<Rightarrow> externals \<Rightarrow> (AlertRuleKey \<times> NotificationSettings list) list \<Rightarrow>
   settings_map \<times> Logger \<Rightarrow> settings_map \<times> Logger" where
  "rules_loop validator E [] st = st"
| "rules_loop validator E ((ruleKey, ruleSettings) # settings) st =
     rules_loop validator E settings (rule_loop validator E ruleKey ruleSettings st)"

text \<open>
  \<^verbatim>\<open>newAutogeneratedRoute\<close>. The context is only handed to the store, whose query is modelled
  by its result for each organisation; the logger is passed in and returned with the entries
  written. The collected map is handed to \<^verbatim>\<open>generateRouteFromSettings\<close> in insertion order:
  that function sorts the keys, so the order does not matter (C1 below).
\<close>

definition newAutogeneratedRoute ::
  "Logger \<Rightarrow> int64 \<Rightarrow> autogenRuleStore \<Rightarrow> externals \<Rightarrow> string \<Rightarrow> notificaitonSettingsValidator \<Rightarrow>
   (autogeneratedRoute \<times> error option) \<times> Logger" where
  "newAutogeneratedRoute logger orgId store E defaultReceiver validator =
     (case ListNotificationSettings store orgId of
        (settings, Some err) \<Rightarrow>
          ((autogeneratedRoute_zero, Some (Errorf_w ''failed to list alert rules: '' err)), logger)
      | (settings, None) \<Rightarrow>
          (case rules_loop validator E settings ([], logger) of
             (notificationSettings, logger') \<Rightarrow>
               if length notificationSettings = 0 then ((autogeneratedRoute_zero, None), logger')
               else
                 (case generateRouteFromSettings E defaultReceiver notificationSettings of
                    (newAutogenRoute, Some err) \<Rightarrow>
                      ((autogeneratedRoute_zero,
                        Some (Errorf_w ''failed to create autogenerated route: '' err)), logger')
                  | (newAutogenRoute, None) \<Rightarrow> ((newAutogenRoute, None), logger'))))"

section \<open>Merging into the configuration\<close>

text \<open>
  \<^verbatim>\<open>AddToConfig\<close> has a pointer receiver that may be nil, and writes both to the route it
  holds and to the configuration: the model returns both, with the error.
\<close>

definition AddToConfig ::
  "autogeneratedRoute option \<Rightarrow> PostableUserConfig \<Rightarrow>
   (autogeneratedRoute option \<times> PostableUserConfig) \<times> error option" where
  "AddToConfig ar config =
     (case PostableApiAlertingConfig.Route (AlertmanagerConfig config) of
        None \<Rightarrow>
          ((ar, config),
           Some (errors_New ''invalid Alertmanager configuration. The root route does not exist''))
      | Some root \<Rightarrow>
          (case ar of
             None \<Rightarrow> ((ar, config), None)
           | Some a \<Rightarrow>
               (case autogeneratedRoute.Route a of
                  None \<Rightarrow> ((ar, config), None)
                | Some r \<Rightarrow>
                    (let r' = set_Receiver r (Route.Receiver root);
                         root' = set_Routes root (r' # Route.Routes root)
                     in ((Some (a\<lparr>autogeneratedRoute.Route := Some r'\<rparr>),
                          config\<lparr>AlertmanagerConfig :=
                            (AlertmanagerConfig config)\<lparr>PostableApiAlertingConfig.Route := Some root'\<rparr>\<rparr>),
                         None)))))"

section \<open>Notions used to state the properties\<close>

text \<open>The number of third-level routes below a list of second-level routes.\<close>

definition leaves :: "Route list \<Rightarrow> nat" where
  "leaves routes = sum_list (map (\<lambda>b. length (Route.Routes b)) routes)"

text \<open>
  The flags of the second and third level: every receiver route continues, every route
  below it does not and has no routes of its own.
\<close>

definition flags_ok :: "Route list \<Rightarrow> bool" where
  "flags_ok routes \<longleftrightarrow>
     (\<forall>b \<in> set routes. Route.Continue b \<and>
        (\<forall>l \<in> set (Route.Routes b). \<not> Route.Continue l \<and> Route.Routes l = []))"

text \<open>
  \<open>l\<close>, a route below the receiver route \<open>b\<close>, is the settings route of an entry of the map
  whose settings are not all default and name the receiver of \<open>b\<close>.
\<close>

definition leaf_of :: "externals \<Rightarrow> settings_map \<Rightarrow> Route \<Rightarrow> Route \<Rightarrow> bool" where
  "leaf_of E settings b l \<longleftrightarrow>
     (\<exists>(k, s) \<in> set settings. \<not> IsAllDefault s \<and>
        Route.Receiver b = NotificationSettings.Receiver s \<and>
        (\<exists>settingMatcher.
           NewMatcher E MatchEqual (AutogeneratedRouteSettingsHashLabel E)
             (Fingerprint_String E (externals.Fingerprint E s)) = Inr settingMatcher \<and>
           l = settings_route s settingMatcher))"

text \<open>
  The invariant of the loop of \<^verbatim>\<open>generateRouteFromSettings\<close>: every pointer held in
  \<^verbatim>\<open>receiverRoutes\<close> points into \<^verbatim>\<open>autoGenRoot.Routes\<close>, at the route of that receiver, and
  every third-level route comes from an entry that is not all default.
\<close>

definition loop_inv :: "externals \<Rightarrow> settings_map \<Rightarrow> loop_state \<Rightarrow> bool" where
  "loop_inv E settings st \<longleftrightarrow>
     (case st of (receiverRoutes, routes) \<Rightarrow>
        (\<forall>r p. receiverRoutes r = Some p \<longrightarrow> p < length routes \<and> Route.Receiver (routes ! p) = r) \<and>
        (\<forall>b \<in> set routes. \<forall>l \<in> set (Route.Routes b). leaf_of E settings b l))"

text \<open>The settings objects of a store result that pass the validator, in the order visited.\<close>

definition valid_list ::
  "notificaitonSettingsValidator \<Rightarrow> (AlertRuleKey \<times> NotificationSettings list) list \<Rightarrow>
   NotificationSettings list" where
  "valid_list validator settings =
     filter (\<lambda>s. Validate validator s = None) (concat (map snd settings))"

text \<open>The store result without the settings objects that fail the validator.\<close>

definition valid_only ::
  "notificaitonSettingsValidator \<Rightarrow> (AlertRuleKey \<times> NotificationSettings list) list \<Rightarrow>
   (AlertRuleKey \<times> NotificationSettings list) list" where
  "valid_only validator settings =
     map (\<lambda>(ruleKey, ruleSettings). (ruleKey, filter (\<lambda>s. Validate validator s = None) ruleSettings))
       settings"

text \<open>The log entries for the settings objects that fail the validator, in the order visited.\<close>

definition invalid_log ::
  "notificaitonSettingsValidator \<Rightarrow> (AlertRuleKey \<times> NotificationSettings list) list \<Rightarrow> Logger" where
  "invalid_log validator settings =
     concat (map (\<lambda>(ruleKey, ruleSettings).
       concat (map (\<lambda>s. case Validate validator s of
                           None \<Rightarrow> []
                         | Some err \<Rightarrow> [(''Rule notification settings are invalid. Skipping'', ruleKey, err)])
                 ruleSettings)) settings)"

text \<open>Keeping the first settings object seen for each fingerprint.\<close>

fun first_seen :: "externals \<Rightarrow> NotificationSettings list \<Rightarrow> settings_map \<Rightarrow> settings_map" where
  "first_seen E [] ns = ns"
| "first_seen E (s # ss) ns =
     (if map_of ns (externals.Fingerprint E s) \<noteq> None then first_seen E ss ns
      else first_seen E ss (ns @ [(externals.Fingerprint E s, s)]))"

text \<open>A map from fingerprints to settings in which every key is the fingerprint of its value.\<close>

definition keyed_by_fingerprint :: "externals \<Rightarrow> settings_map \<Rightarrow> bool" where
  "keyed_by_fingerprint E ns \<longleftrightarrow>
     distinct (map fst ns) \<and> (\<forall>(k, v) \<in> set ns. externals.Fingerprint E v = k)"

section \<open>Concrete inputs\<close>

text \<open>
  Externals in which \<^verbatim>\<open>labels.NewMatcher\<close> builds the matcher and never fails (as the library
  does for \<^verbatim>\<open>MatchEqual\<close>), the label names are those of Grafana, a fingerprint is printed as
  sixteen hexadecimal digits, and the fingerprint of a settings object is a simple function
  of its content, chosen only to give the examples their keys: the number of group-by labels,
  plus 16 times the code of the first character of the receiver name, plus 4096 when a
  group-wait is set.
\<close>

definition ex_Fingerprint :: "NotificationSettings \<Rightarrow> Fingerprint" where
  "ex_Fingerprint s =
     of_nat (length (GroupBy s)) +
     16 * (case NotificationSettings.Receiver s of [] \<Rightarrow> 0 | c # cs \<Rightarrow> of_char c) +
     (if NotificationSettings.GroupWait s = None then 0 else 4096)"

definition ex_String :: "Fingerprint \<Rightarrow> string" where
  "ex_String fp =
     map (\<lambda>i. ''0123456789abcdef'' ! unat (drop_bit (4 * (15 - i)) fp AND 15)) [0 ..< 16]"

definition ex_externals :: externals where
  "ex_externals =
     \<lparr>AutogeneratedRouteLabel = ''__grafana_autogenerated__'',
      AutogeneratedRouteReceiverNameLabel = ''__grafana_receiver__'',
      AutogeneratedRouteSettingsHashLabel = ''__grafana_route_settings_hash__'',
      FolderTitleLabel = ''grafana_folder'',
      AlertNameLabel = ''alertname'',
      NewMatcher = (\<lambda>t n v. Inr (Matcher t n v)),
      Fingerprint = ex_Fingerprint,
      Fingerprint_String = ex_String\<rparr>"

text \<open>Settings objects: three that pass the validator below and one that does not.\<close>

definition ex_slack_default :: NotificationSettings where
  "ex_slack_default =
     \<lparr>NotificationSettings.Receiver = ''slack'', GroupBy = [], GroupWait = None,
      GroupInterval = None, RepeatInterval = None, MuteTimeIntervals = []\<rparr>"

definition ex_slack_wait :: NotificationSettings where
  "ex_slack_wait =
     \<lparr>NotificationSettings.Receiver = ''slack'', GroupBy = [], GroupWait = Some 30000000000,
      GroupInterval = None, RepeatInterval = None, MuteTimeIntervals = []\<rparr>"

definition ex_email_default :: NotificationSettings where
  "ex_email_default =
     \<lparr>NotificationSettings.Receiver = ''email'', GroupBy = [], GroupWait = None,
      GroupInterval = None, RepeatInterval = None, MuteTimeIntervals = []\<rparr>"

definition ex_no_receiver :: NotificationSettings where
  "ex_no_receiver =
     \<lparr>NotificationSettings.Receiver = [], GroupBy = [''cluster''], GroupWait = None,
      GroupInterval = None, RepeatInterval = None, MuteTimeIntervals = []\<rparr>"

definition ex_validator :: notificaitonSettingsValidator where
  "ex_validator =
     \<lparr>Validate = (\<lambda>s. if NotificationSettings.Receiver s = []
                       then Some (errors_New ''receiver must be specified'') else None)\<rparr>"

text \<open>The same deduplicated map with its entries in two orders, and the route built from it.\<close>

definition ex_settings :: settings_map where
  "ex_settings = [(5936, ex_slack_wait), (1840, ex_slack_default), (1616, ex_email_default)]"

definition ex_settings_permuted :: settings_map where
  "ex_settings_permuted = [(1616, ex_email_default), (5936, ex_slack_wait), (1840, ex_slack_default)]"

definition ex_route :: autogeneratedRoute where
  "ex_route =
     \<lparr>autogeneratedRoute.Route = Some
        (Route.Route ''default'' [Matcher MatchEqual ''__grafana_autogenerated__'' ''true''] False
           [] [] None None None
           [Route.Route ''email'' [Matcher MatchEqual ''__grafana_receiver__'' ''email''] True
              [''grafana_folder'', ''alertname''] [] None None None [],
            Route.Route ''slack'' [Matcher MatchEqual ''__grafana_receiver__'' ''slack''] True
              [''grafana_folder'', ''alertname''] [] None None None
              [Route.Route ''slack''
                 [Matcher MatchEqual ''__grafana_route_settings_hash__'' ''0000000000001730'']
                 False [] [] (Some 30000000000) None None []]]),
      Fingerprint = 7372326844696612686\<rparr>"

text \<open>Store results, and a store that fails for every organisation but 1 and 2.\<close>

definition ex_rule_a :: AlertRuleKey where
  "ex_rule_a = \<lparr>OrgID = 1, UID = ''rule-a''\<rparr>"

definition ex_rule_b :: AlertRuleKey where
  "ex_rule_b = \<lparr>OrgID = 1, UID = ''rule-b''\<rparr>"

definition ex_rules :: "(AlertRuleKey \<times> NotificationSettings list) list" where
  "ex_rules =
     [(ex_rule_a, [ex_slack_wait, ex_no_receiver, ex_slack_default]),
      (ex_rule_b, [ex_email_default, ex_slack_wait])]"

definition ex_rules_identical :: "(AlertRuleKey \<times> NotificationSettings list) list" where
  "ex_rules_identical =
     [(ex_rule_a, [ex_slack_default]), (ex_rule_b, [ex_slack_default, ex_slack_default])]"

definition ex_rules_invalid :: "(AlertRuleKey \<times> NotificationSettings list) list" where
  "ex_rules_invalid = [(ex_rule_a, [ex_no_receiver])]"

definition ex_store :: autogenRuleStore where
  "ex_store =
     \<lparr>ListNotificationSettings = (\<lambda>orgID.
        if orgID = 1 then (ex_rules, None)
        else if orgID = 2 then (ex_rules_invalid, None)
        else ([], Some (errors_New ''database is locked'')))\<rparr>"

text \<open>Configurations with and without a root route, and a generated route.\<close>

definition ex_user_route :: Route where
  "ex_user_route = Route.Route ''pager'' [] False [] [] None None None []"

definition ex_root :: Route where
  "ex_root = Route.Route ''grafana-default-email'' [] False [] [] None None None [ex_user_route]"

definition ex_config :: PostableUserConfig where
  "ex_config = \<lparr>AlertmanagerConfig = \<lparr>PostableApiAlertingConfig.Route = Some ex_root\<rparr>\<rparr>"

definition ex_config_no_root :: PostableUserConfig where
  "ex_config_no_root = \<lparr>AlertmanagerConfig = \<lparr>PostableApiAlertingConfig.Route = None\<rparr>\<rparr>"

definition ex_generated_root :: Route where
  "ex_generated_root =
     Route.Route ''default'' [Matcher MatchEqual ''__grafana_autogenerated__'' ''true''] False
       [] [] None None None []"

definition ex_generated :: autogeneratedRoute where
  "ex_generated = \<lparr>autogeneratedRoute.Route = Some ex_generated_root, Fingerprint = 7\<rparr>"

section \<open>Routes\<close>

lemma Receiver_set_Receiver: "Route.Receiver (set_Receiver r x) = x"
  by (cases r) simp

lemma Routes_set_Receiver: "Route.Routes (set_Receiver r x) = Route.Routes r"
  by (cases r) simp

lemma Continue_set_Receiver: "Route.Continue (set_Receiver r x) = Route.Continue r"
  by (cases r) simp

lemma ObjectMatchers_set_Receiver: "Route.ObjectMatchers (set_Receiver r x) = Route.ObjectMatchers r"
  by (cases r) simp

lemma Routes_set_Routes: "Route.Routes (set_Routes r xs) = xs"
  by (cases r) simp

lemma Receiver_set_Routes: "Route.Receiver (set_Routes r xs) = Route.Receiver r"
  by (cases r) simp

lemma Continue_set_Routes: "Route.Continue (set_Routes r xs) = Route.Continue r"
  by (cases r) simp

section \<open>Properties of the aggregate fingerprint\<close>

lemma sort2: "sort [a, b] = sort [b, a]" for a b :: "'a::linorder"
  by (cases "a \<le> b") auto


text \<open>
  C2, as stated, fails: \<^verbatim>\<open>calculateAutogeneratedRouteHash\<close> does not sort its input. It
  folds the fingerprints into the hash in the order given, so the aggregate of \<open>[1, 2]\<close>
  differs from the aggregate of \<open>[2, 1]\<close>.
\<close>

theorem calculateAutogeneratedRouteHash_order_dependent:
  "(1 :: Fingerprint) \<noteq> 2 \<and>
   calculateAutogeneratedRouteHash [1, 2] = 14611168519196456206 \<and>
   calculateAutogeneratedRouteHash [2, 1] = 15728926830263815736 \<and>
   calculateAutogeneratedRouteHash [1, 2] \<noteq> calculateAutogeneratedRouteHash [2, 1]"
  by code_simp

text \<open>
  C2, amended. The sorting is done by the caller: \<^verbatim>\<open>generateRouteFromSettings\<close> sorts the keys
  ascending before it calls \<^verbatim>\<open>calculateAutogeneratedRouteHash\<close>. So the aggregate of the sorted
  list of \<open>[a, b]\<close> equals the aggregate of the sorted list of \<open>[b, a]\<close>, for any two
  fingerprints, and the fingerprint of every route built is the aggregate of the keys of the
  settings map in ascending order.
\<close>

theorem aggregate_fingerprint_of_sorted_keys:
  "calculateAutogeneratedRouteHash (sort [a, b]) = calculateAutogeneratedRouteHash (sort [b, a]) \<and>
   (snd (generateRouteFromSettings E d settings) = None \<longrightarrow>
      autogeneratedRoute.Fingerprint (fst (generateRouteFromSettings E d settings)) =
        calculateAutogeneratedRouteHash (sort (map fst settings)))"
  by (auto simp: sort2 [of a b] generateRouteFromSettings_def Let_def split: sum.splits prod.splits)

theorem aggregate_fingerprint_of_sorted_keys_witness:
  "snd (generateRouteFromSettings ex_externals ''default'' ex_settings_permuted) = None \<and>
   calculateAutogeneratedRouteHash (sort [2, 1]) = calculateAutogeneratedRouteHash (sort [1, 2]) \<and>
   autogeneratedRoute.Fingerprint
     (fst (generateRouteFromSettings ex_externals ''default'' ex_settings_permuted)) =
     calculateAutogeneratedRouteHash (sort (map fst ex_settings_permuted))"
proof -
  have h: "snd (generateRouteFromSettings ex_externals ''default'' ex_settings_permuted) = None"
    by code_simp
  show ?thesis
    using h aggregate_fingerprint_of_sorted_keys
      [where a = 2 and b = 1 and E = ex_externals and d = "''default''"
         and settings = ex_settings_permuted]
    by blast
qed

section \<open>Properties of the route builder\<close>

subsection \<open>Determinism\<close>

lemma index_settings_cong:
  "map_of xs = map_of ys \<Longrightarrow> index_settings xs k = index_settings ys k"
  by (simp add: index_settings_def)

lemma loop_body_cong:
  "map_of xs = map_of ys \<Longrightarrow> loop_body E xs k st = loop_body E ys k st"
  by (simp add: loop_body_def index_settings_cong [of xs ys])

lemma settings_loop_cong:
  "map_of xs = map_of ys \<Longrightarrow> settings_loop E xs keys st = settings_loop E ys keys st"
  by (induction keys arbitrary: st) (simp_all add: loop_body_cong [of xs ys] split: sum.splits)

lemma sort_distinct:
  "distinct zs \<Longrightarrow> sort zs = sorted_list_of_set (set zs)" for zs :: "'a::linorder list"
  by (simp add: sorted_list_of_set_sort_remdups distinct_remdups_id)

lemma sort_distinct_keys:
  assumes "distinct (map fst xs)" and "distinct (map fst ys)" and "set xs = set ys"
  shows "sort (map fst xs) = sort (map fst ys)"
proof -
  have "set (map fst xs) = set (map fst ys)"
    using assms(3) by simp
  then show ?thesis
    using assms(1,2) by (simp only: sort_distinct)
qed


text \<open>
  C1. Two settings maps with the same entries, whatever the order in which a traversal
  meets them, give the same result: the same route tree and the same aggregate fingerprint
  (or the same error), for every default receiver. A Go map holds each key once, so the
  two association lists have distinct keys.
\<close>

theorem generateRouteFromSettings_deterministic:
  assumes "distinct (map fst xs)" and "distinct (map fst ys)" and "set xs = set ys"
  shows "generateRouteFromSettings E defaultReceiver xs = generateRouteFromSettings E defaultReceiver ys"
proof -
  have m: "map_of xs = map_of ys"
    using assms by (simp add: map_of_inject_set)
  have k: "sort (map fst xs) = sort (map fst ys)"
    using assms by (rule sort_distinct_keys)
  have l: "settings_loop E xs (sort (map fst ys)) (Map.empty, []) =
      settings_loop E ys (sort (map fst ys)) (Map.empty, [])"
    using m by (rule settings_loop_cong)
  show ?thesis
    by (simp add: generateRouteFromSettings_def Let_def k l cong: sum.case_cong)
qed


theorem generateRouteFromSettings_deterministic_witness:
  "distinct (map fst ex_settings) \<and> distinct (map fst ex_settings_permuted) \<and>
   set ex_settings = set ex_settings_permuted \<and>
   generateRouteFromSettings ex_externals ''default'' ex_settings =
     generateRouteFromSettings ex_externals ''default'' ex_settings_permuted"
proof -
  have h1: "distinct (map fst ex_settings)"
    by (simp add: ex_settings_def)
  have h2: "distinct (map fst ex_settings_permuted)"
    by (simp add: ex_settings_permuted_def)
  have h3: "set ex_settings = set ex_settings_permuted"
    by (auto simp: ex_settings_def ex_settings_permuted_def)
  have "generateRouteFromSettings ex_externals ''default'' ex_settings =
      generateRouteFromSettings ex_externals ''default'' ex_settings_permuted"
    using h1 h2 h3 by (rule generateRouteFromSettings_deterministic)
  with h1 h2 h3 show ?thesis by (intro conjI)
qed

subsection \<open>The continue flags\<close>

lemma flags_ok_append:
  "flags_ok routes \<Longrightarrow> flags_ok (routes @ [Route.Route rc om True gb mt gw gi ri []])"
  by (simp add: flags_ok_def)

lemma flags_ok_update:
  assumes "flags_ok routes"
  shows "flags_ok (routes[p := set_Routes (routes ! p) (Route.Routes (routes ! p) @ [settings_route s m])])"
proof (cases "p < length routes")
  case True
  define v where "v = set_Routes (routes ! p) (Route.Routes (routes ! p) @ [settings_route s m])"
  from True have "routes ! p \<in> set routes" by simp
  with assms have b: "Route.Continue (routes ! p)"
    and l: "\<forall>l \<in> set (Route.Routes (routes ! p)). \<not> Route.Continue l \<and> Route.Routes l = []"
    by (simp_all add: flags_ok_def)
  have v1: "Route.Continue v"
    using b by (simp add: v_def Continue_set_Routes)
  have v2: "\<forall>l \<in> set (Route.Routes v). \<not> Route.Continue l \<and> Route.Routes l = []"
    using l by (simp add: v_def Routes_set_Routes settings_route_def)
  have "\<forall>b \<in> set (routes[p := v]). Route.Continue b \<and>
          (\<forall>l \<in> set (Route.Routes b). \<not> Route.Continue l \<and> Route.Routes l = [])"
  proof
    fix b assume "b \<in> set (routes[p := v])"
    then have "b = v \<or> b \<in> set routes"
      using set_update_subset_insert [of routes p v] by blast
    then show "Route.Continue b \<and> (\<forall>l \<in> set (Route.Routes b). \<not> Route.Continue l \<and> Route.Routes l = [])"
    proof
      assume "b = v"
      then show ?thesis using v1 v2 by simp
    next
      assume "b \<in> set routes"
      then show ?thesis using assms unfolding flags_ok_def by blast
    qed
  qed
  then show ?thesis unfolding flags_ok_def v_def .
next
  case False
  then have "length routes \<le> p" by (simp add: not_less)
  then have "routes[p := set_Routes (routes ! p) (Route.Routes (routes ! p) @ [settings_route s m])] = routes"
    by (rule list_update_beyond)
  then show ?thesis using assms by (simp only:)
qed

lemma receiverRoute_for_flags:
  "receiverRoute_for E s (m, routes) = Inr (p, m', routes') \<Longrightarrow> flags_ok routes \<Longrightarrow> flags_ok routes'"
  by (auto simp: receiverRoute_for_def flags_ok_append split: option.splits sum.splits)

lemma loop_body_flags:
  assumes "loop_body E settings k (m, routes) = Inr (m', routes')" and "flags_ok routes"
  shows "flags_ok routes'"
proof -
  from assms(1) obtain p m1 routes1 where
    r: "receiverRoute_for E (index_settings settings k) (m, routes) = Inr (p, m1, routes1)"
    by (auto simp: loop_body_def Let_def split: sum.splits)
  from r assms(2) have f1: "flags_ok routes1" by (rule receiverRoute_for_flags)
  show ?thesis
  proof (cases "IsAllDefault (index_settings settings k)")
    case True
    with assms(1) r have "routes' = routes1" by (simp add: loop_body_def Let_def)
    with f1 show ?thesis by simp
  next
    case False
    with assms(1) r obtain sm where
      "routes' = routes1[p := set_Routes (routes1 ! p)
         (Route.Routes (routes1 ! p) @ [settings_route (index_settings settings k) sm])]"
      by (auto simp: loop_body_def Let_def split: sum.splits)
    with f1 show ?thesis by (simp add: flags_ok_update)
  qed
qed

lemma settings_loop_flags:
  "settings_loop E settings keys (m, routes) = Inr (m', routes') \<Longrightarrow> flags_ok routes \<Longrightarrow> flags_ok routes'"
proof (induction keys arbitrary: m routes)
  case Nil
  then show ?case by simp
next
  case (Cons k keys)
  from Cons.prems(1) obtain m1 routes1 where
    b: "loop_body E settings k (m, routes) = Inr (m1, routes1)"
    and r: "settings_loop E settings keys (m1, routes1) = Inr (m', routes')"
    by (auto split: sum.splits)
  from b Cons.prems(2) have "flags_ok routes1" by (rule loop_body_flags)
  with r show ?case by (rule Cons.IH)
qed


text \<open>
  C4. In every tree that \<^verbatim>\<open>generateRouteFromSettings\<close> returns, the root does not continue,
  every second-level route (one per receiver) continues, and every third-level route (one
  per combination of settings) does not continue; the tree ends at the third level.
\<close>

theorem generateRouteFromSettings_continue_flags:
  assumes "generateRouteFromSettings E defaultReceiver settings = (ar, None)"
  shows "\<exists>root. autogeneratedRoute.Route ar = Some root \<and> \<not> Route.Continue root \<and>
           (\<forall>b \<in> set (Route.Routes root). Route.Continue b \<and>
              (\<forall>l \<in> set (Route.Routes b). \<not> Route.Continue l \<and> Route.Routes l = []))"
proof -
  from assms obtain rootMatcher m' routes' where
    l: "settings_loop E settings (sort (map fst settings)) (Map.empty, []) = Inr (m', routes')"
    and ar: "ar = \<lparr>autogeneratedRoute.Route =
                    Some (Route.Route defaultReceiver [rootMatcher] False [] [] None None None routes'),
                  Fingerprint = calculateAutogeneratedRouteHash (sort (map fst settings))\<rparr>"
    by (auto simp: generateRouteFromSettings_def Let_def split: sum.splits)
  have "flags_ok []" by (simp add: flags_ok_def)
  with l have "flags_ok routes'" by (rule settings_loop_flags)
  then show ?thesis by (simp add: ar flags_ok_def)
qed


theorem generateRouteFromSettings_continue_flags_witness:
  "generateRouteFromSettings ex_externals ''default'' ex_settings = (ex_route, None) \<and>
   (\<exists>root. autogeneratedRoute.Route ex_route = Some root \<and> \<not> Route.Continue root \<and>
      (\<forall>b \<in> set (Route.Routes root). Route.Continue b \<and>
         (\<forall>l \<in> set (Route.Routes b). \<not> Route.Continue l \<and> Route.Routes l = [])))"
proof (rule conjI)
  show h: "generateRouteFromSettings ex_externals ''default'' ex_settings = (ex_route, None)"
    by code_simp
  show "\<exists>root. autogeneratedRoute.Route ex_route = Some root \<and> \<not> Route.Continue root \<and>
      (\<forall>b \<in> set (Route.Routes root). Route.Continue b \<and>
         (\<forall>l \<in> set (Route.Routes b). \<not> Route.Continue l \<and> Route.Routes l = []))"
    using h by (rule generateRouteFromSettings_continue_flags)
qed

subsection \<open>Settings that are all default\<close>

lemma leaves_append: "leaves (routes @ [b]) = leaves routes + length (Route.Routes b)"
  by (simp add: leaves_def)

lemma leaves_update:
  assumes "p < length routes"
  shows "leaves (routes[p := set_Routes (routes ! p) (Route.Routes (routes ! p) @ [l])]) = leaves routes + 1"
proof -
  let ?f = "\<lambda>b. length (Route.Routes b)"
  let ?v = "set_Routes (routes ! p) (Route.Routes (routes ! p) @ [l])"
  have "map ?f (routes[p := ?v]) = (map ?f routes)[p := ?f ?v]"
    by (rule map_update)
  moreover have "?f ?v = map ?f routes ! p + 1"
    using assms by (simp add: Routes_set_Routes)
  moreover have "p < length (map ?f routes)"
    using assms by simp
  ultimately have "sum_list (map ?f (routes[p := ?v])) = sum_list (map ?f routes) + (map ?f routes ! p + 1) - map ?f routes ! p"
    by (simp only: sum_list_update)
  then show ?thesis by (simp add: leaves_def)
qed

lemma receiverRoute_for_inv:
  assumes "receiverRoute_for E s (m, routes) = Inr (p, m', routes')"
    and "loop_inv E settings (m, routes)"
  shows "loop_inv E settings (m', routes')"
    and "m' (NotificationSettings.Receiver s) = Some p"
    and "leaves routes' = leaves routes"
    and "\<forall>r. m r \<noteq> None \<longrightarrow> m' r \<noteq> None"
proof -
  let ?r = "NotificationSettings.Receiver s"
  show "loop_inv E settings (m', routes')"
  proof (cases "m ?r")
    case (Some q)
    with assms(1) have "m' = m" "routes' = routes"
      by (simp_all add: receiverRoute_for_def)
    with assms(2) show ?thesis by simp
  next
    case None
    with assms(1) obtain cm where
      m': "m' = m(?r \<mapsto> length routes)" and
      r': "routes' = routes @ [Route.Route ?r [cm] True [FolderTitleLabel E, AlertNameLabel E] [] None None None []]"
      by (auto simp: receiverRoute_for_def split: sum.splits)
    from assms(2) have ptr: "\<forall>r p. m r = Some p \<longrightarrow> p < length routes \<and> Route.Receiver (routes ! p) = r"
      and lf: "\<forall>b \<in> set routes. \<forall>l \<in> set (Route.Routes b). leaf_of E settings b l"
      by (simp_all add: loop_inv_def)
    have "\<forall>r p. m' r = Some p \<longrightarrow> p < length routes' \<and> Route.Receiver (routes' ! p) = r"
    proof (intro allI impI)
      fix r q assume a: "m' r = Some q"
      show "q < length routes' \<and> Route.Receiver (routes' ! q) = r"
      proof (cases "r = ?r")
        case True
        with a have "q = length routes" by (simp add: m')
        then show ?thesis by (simp add: r' True)
      next
        case False
        with a have "m r = Some q" by (simp add: m')
        with ptr have "q < length routes" and "Route.Receiver (routes ! q) = r" by blast+
        then show ?thesis by (simp add: r' nth_append)
      qed
    qed
    moreover have "\<forall>b \<in> set routes'. \<forall>l \<in> set (Route.Routes b). leaf_of E settings b l"
      using lf by (simp add: r')
    ultimately show ?thesis by (simp add: loop_inv_def)
  qed
  show "m' ?r = Some p"
    using assms(1) by (auto simp: receiverRoute_for_def split: option.splits sum.splits)
  show "leaves routes' = leaves routes"
    using assms(1) by (auto simp: receiverRoute_for_def leaves_append split: option.splits sum.splits)
  show "\<forall>r. m r \<noteq> None \<longrightarrow> m' r \<noteq> None"
    using assms(1) by (auto simp: receiverRoute_for_def split: option.splits sum.splits)
qed

lemma index_settings_in:
  "\<not> IsAllDefault (index_settings settings k) \<Longrightarrow> (k, index_settings settings k) \<in> set settings"
  by (auto simp: index_settings_def IsAllDefault_def NotificationSettings_zero_def
      split: option.splits dest: map_of_SomeD)

lemma loop_body_inv:
  assumes "loop_body E settings k (m, routes) = Inr (m', routes')"
    and "loop_inv E settings (m, routes)"
  shows "loop_inv E settings (m', routes')"
    and "m' (NotificationSettings.Receiver (index_settings settings k)) \<noteq> None"
    and "leaves routes' = leaves routes + (if IsAllDefault (index_settings settings k) then 0 else 1)"
    and "\<forall>r. m r \<noteq> None \<longrightarrow> m' r \<noteq> None"
proof -
  let ?s = "index_settings settings k"
  from assms(1) obtain p m1 routes1 where
    r: "receiverRoute_for E ?s (m, routes) = Inr (p, m1, routes1)"
    by (auto simp: loop_body_def Let_def split: sum.splits)
  note r1 = receiverRoute_for_inv [OF r assms(2)]
  from r1(1) have ptr: "\<forall>r p. m1 r = Some p \<longrightarrow> p < length routes1 \<and> Route.Receiver (routes1 ! p) = r"
    and lf: "\<forall>b \<in> set routes1. \<forall>l \<in> set (Route.Routes b). leaf_of E settings b l"
    by (simp_all add: loop_inv_def)
  from ptr r1(2) have p: "p < length routes1" and rp: "Route.Receiver (routes1 ! p) = NotificationSettings.Receiver ?s"
    by blast+
  have m': "m' = m1"
    using assms(1) r by (auto simp: loop_body_def Let_def split: sum.splits if_splits)
  show "m' (NotificationSettings.Receiver ?s) \<noteq> None"
    using r1(2) by (simp add: m')
  show "\<forall>r. m r \<noteq> None \<longrightarrow> m' r \<noteq> None"
    using r1(4) by (simp add: m')
  show "loop_inv E settings (m', routes')"
    and "leaves routes' = leaves routes + (if IsAllDefault ?s then 0 else 1)"
  proof -
    have "loop_inv E settings (m', routes') \<and>
        leaves routes' = leaves routes + (if IsAllDefault ?s then 0 else 1)"
    proof (cases "IsAllDefault ?s")
      case True
      with assms(1) r have "routes' = routes1" by (simp add: loop_body_def Let_def)
      with True r1(1) r1(3) m' show ?thesis by simp
    next
      case False
      with assms(1) r obtain sm where
        nm: "NewMatcher E MatchEqual (AutogeneratedRouteSettingsHashLabel E)
               (Fingerprint_String E (externals.Fingerprint E ?s)) = Inr sm"
        and r': "routes' = routes1[p := set_Routes (routes1 ! p)
                   (Route.Routes (routes1 ! p) @ [settings_route ?s sm])]"
        by (auto simp: loop_body_def Let_def split: sum.splits)
      define v where "v = set_Routes (routes1 ! p) (Route.Routes (routes1 ! p) @ [settings_route ?s sm])"
      have r'': "routes' = routes1[p := v]" by (simp add: r' v_def)
      have rv: "Route.Receiver v = Route.Receiver (routes1 ! p)"
        by (simp add: v_def Receiver_set_Routes)
      have new_leaf: "leaf_of E settings v (settings_route ?s sm)"
        unfolding leaf_of_def
        using index_settings_in [OF False] False nm rv rp by force
      have old: "routes1 ! p \<in> set routes1" using p by simp
      have vl: "\<forall>l \<in> set (Route.Routes v). leaf_of E settings v l"
      proof
        fix l assume "l \<in> set (Route.Routes v)"
        then have "l \<in> set (Route.Routes (routes1 ! p)) \<or> l = settings_route ?s sm"
          by (auto simp: v_def Routes_set_Routes)
        then show "leaf_of E settings v l"
        proof
          assume "l \<in> set (Route.Routes (routes1 ! p))"
          with lf old have "leaf_of E settings (routes1 ! p) l" by blast
          then show ?thesis by (simp add: leaf_of_def rv)
        next
          assume "l = settings_route ?s sm"
          then show ?thesis using new_leaf by simp
        qed
      qed
      have lf': "\<forall>b \<in> set routes'. \<forall>l \<in> set (Route.Routes b). leaf_of E settings b l"
      proof
        fix b assume "b \<in> set routes'"
        then have "b = v \<or> b \<in> set routes1"
          using set_update_subset_insert [of routes1 p v] by (auto simp: r'')
        then show "\<forall>l \<in> set (Route.Routes b). leaf_of E settings b l"
          using vl lf by blast
      qed
      have ptr': "\<forall>r q. m' r = Some q \<longrightarrow> q < length routes' \<and> Route.Receiver (routes' ! q) = r"
      proof (intro allI impI)
        fix r q assume "m' r = Some q"
        with ptr m' have q: "q < length routes1" and rq: "Route.Receiver (routes1 ! q) = r" by blast+
        show "q < length routes' \<and> Route.Receiver (routes' ! q) = r"
        proof (cases "q = p")
          case True
          then show ?thesis using q rq rv by (simp add: r'')
        next
          case False
          then show ?thesis using q rq by (simp add: r'')
        qed
      qed
      have "leaves routes' = leaves routes1 + 1"
        unfolding r' using p by (rule leaves_update)
      with r1(3) False ptr' lf' show ?thesis by (simp add: loop_inv_def)
    qed
    then show "loop_inv E settings (m', routes')"
      and "leaves routes' = leaves routes + (if IsAllDefault ?s then 0 else 1)"
      by simp_all
  qed
qed

lemma settings_loop_inv:
  assumes "settings_loop E settings keys (m, routes) = Inr (m', routes')"
    and "loop_inv E settings (m, routes)"
  shows "loop_inv E settings (m', routes') \<and>
         leaves routes' = leaves routes + length (filter (\<lambda>k. \<not> IsAllDefault (index_settings settings k)) keys) \<and>
         (\<forall>r. m r \<noteq> None \<longrightarrow> m' r \<noteq> None) \<and>
         (\<forall>k \<in> set keys. m' (NotificationSettings.Receiver (index_settings settings k)) \<noteq> None)"
  using assms
proof (induction keys arbitrary: m routes)
  case Nil
  then show ?case by simp
next
  case (Cons k keys)
  from Cons.prems(1) obtain m1 routes1 where
    b: "loop_body E settings k (m, routes) = Inr (m1, routes1)"
    and r: "settings_loop E settings keys (m1, routes1) = Inr (m', routes')"
    by (auto split: sum.splits)
  note b1 = loop_body_inv [OF b Cons.prems(2)]
  note ih = Cons.IH [OF r b1(1)]
  from ih b1(2) have "m' (NotificationSettings.Receiver (index_settings settings k)) \<noteq> None"
    by blast
  moreover from ih b1(4) have "\<forall>r. m r \<noteq> None \<longrightarrow> m' r \<noteq> None"
    by blast
  moreover from ih b1(3) have "leaves routes' = leaves routes +
      length (filter (\<lambda>k. \<not> IsAllDefault (index_settings settings k)) (k # keys))"
    by simp
  ultimately show ?case using ih by simp
qed

lemma index_settings_distinct:
  "distinct (map fst settings) \<Longrightarrow> (k, s) \<in> set settings \<Longrightarrow> index_settings settings k = s"
  by (simp add: index_settings_def)

lemma count_sorted_keys:
  assumes "distinct (map fst settings)"
  shows "length (filter (\<lambda>k. \<not> IsAllDefault (index_settings settings k)) (sort (map fst settings))) =
         length (filter (\<lambda>(k, s). \<not> IsAllDefault s) settings)"
proof -
  let ?P = "\<lambda>k. \<not> IsAllDefault (index_settings settings k)"
  have "length (filter ?P (sort (map fst settings))) = length (filter ?P (map fst settings))"
    by (simp add: filter_sort)
  also have "\<dots> = length (filter (?P \<circ> fst) settings)"
    by (simp add: filter_map)
  also have "filter (?P \<circ> fst) settings = filter (\<lambda>(k, s). \<not> IsAllDefault s) settings"
    using assms by (intro filter_cong) (auto simp: index_settings_distinct)
  finally show ?thesis .
qed


text \<open>
  C5. In a tree built from a settings map, the third-level routes are exactly one for each
  entry whose settings are not all default: their number is the number of such entries, and
  each of them is the settings route of such an entry, below the route of its receiver. So no
  third-level route exists for an entry whose optional fields are all at their zero value.
  Every entry, all default or not, has the second-level route of its receiver.
\<close>

theorem generateRouteFromSettings_all_default_no_leaf:
  assumes "generateRouteFromSettings E defaultReceiver settings = (ar, None)"
    and "distinct (map fst settings)"
  shows "\<exists>root. autogeneratedRoute.Route ar = Some root \<and>
           sum_list (map (\<lambda>b. length (Route.Routes b)) (Route.Routes root)) =
             length (filter (\<lambda>(k, s). \<not> IsAllDefault s) settings) \<and>
           (\<forall>b \<in> set (Route.Routes root). \<forall>l \<in> set (Route.Routes b).
              \<exists>(k, s) \<in> set settings. \<not> IsAllDefault s \<and>
                Route.Receiver b = NotificationSettings.Receiver s \<and>
                (\<exists>settingMatcher.
                   NewMatcher E MatchEqual (AutogeneratedRouteSettingsHashLabel E)
                     (Fingerprint_String E (externals.Fingerprint E s)) = Inr settingMatcher \<and>
                   l = settings_route s settingMatcher)) \<and>
           (\<forall>(k, s) \<in> set settings. \<exists>b \<in> set (Route.Routes root).
              Route.Receiver b = NotificationSettings.Receiver s)"
proof -
  let ?keys = "sort (map fst settings)"
  from assms(1) obtain rootMatcher m' routes' where
    l: "settings_loop E settings ?keys (Map.empty, []) = Inr (m', routes')"
    and ar: "ar = \<lparr>autogeneratedRoute.Route =
                    Some (Route.Route defaultReceiver [rootMatcher] False [] [] None None None routes'),
                  Fingerprint = calculateAutogeneratedRouteHash ?keys\<rparr>"
    by (auto simp: generateRouteFromSettings_def Let_def split: sum.splits)
  have "loop_inv E settings (Map.empty, [])" by (simp add: loop_inv_def)
  note inv = settings_loop_inv [OF l this]
  from inv have ptr: "\<forall>r p. m' r = Some p \<longrightarrow> p < length routes' \<and> Route.Receiver (routes' ! p) = r"
    and lf: "\<forall>b \<in> set routes'. \<forall>l \<in> set (Route.Routes b). leaf_of E settings b l"
    by (simp_all add: loop_inv_def)
  from inv have "leaves routes' = length (filter (\<lambda>k. \<not> IsAllDefault (index_settings settings k)) ?keys)"
    by (simp add: leaves_def)
  then have cnt: "sum_list (map (\<lambda>b. length (Route.Routes b)) routes') =
      length (filter (\<lambda>(k, s). \<not> IsAllDefault s) settings)"
    using assms(2) by (simp add: count_sorted_keys leaves_def)
  have br: "\<forall>(k, s) \<in> set settings. \<exists>b \<in> set routes'. Route.Receiver b = NotificationSettings.Receiver s"
  proof (intro ballI, clarify)
    fix k s assume ks: "(k, s) \<in> set settings"
    then have "k \<in> set ?keys" by force
    with inv have "m' (NotificationSettings.Receiver (index_settings settings k)) \<noteq> None" by blast
    then obtain p where "m' (NotificationSettings.Receiver s) = Some p"
      using assms(2) ks by (auto simp: index_settings_distinct)
    with ptr have "p < length routes'" and "Route.Receiver (routes' ! p) = NotificationSettings.Receiver s"
      by blast+
    then show "\<exists>b \<in> set routes'. Route.Receiver b = NotificationSettings.Receiver s"
      using nth_mem by blast
  qed
  from lf have lf': "\<forall>b \<in> set routes'. \<forall>l \<in> set (Route.Routes b).
              \<exists>(k, s) \<in> set settings. \<not> IsAllDefault s \<and>
                Route.Receiver b = NotificationSettings.Receiver s \<and>
                (\<exists>settingMatcher.
                   NewMatcher E MatchEqual (AutogeneratedRouteSettingsHashLabel E)
                     (Fingerprint_String E (externals.Fingerprint E s)) = Inr settingMatcher \<and>
                   l = settings_route s settingMatcher)"
    unfolding leaf_of_def .
  show ?thesis
    using cnt br lf' by (simp add: ar)
qed


theorem generateRouteFromSettings_all_default_no_leaf_witness:
  "generateRouteFromSettings ex_externals ''default'' ex_settings = (ex_route, None) \<and>
   distinct (map fst ex_settings) \<and>
   IsAllDefault ex_slack_default \<and> IsAllDefault ex_email_default \<and> \<not> IsAllDefault ex_slack_wait \<and>
   (\<exists>root. autogeneratedRoute.Route ex_route = Some root \<and>
      sum_list (map (\<lambda>b. length (Route.Routes b)) (Route.Routes root)) =
        length (filter (\<lambda>(k, s). \<not> IsAllDefault s) ex_settings) \<and>
      (\<forall>b \<in> set (Route.Routes root). \<forall>l \<in> set (Route.Routes b).
         \<exists>(k, s) \<in> set ex_settings. \<not> IsAllDefault s \<and>
           Route.Receiver b = NotificationSettings.Receiver s \<and>
           (\<exists>settingMatcher.
              NewMatcher ex_externals MatchEqual (AutogeneratedRouteSettingsHashLabel ex_externals)
                (Fingerprint_String ex_externals (externals.Fingerprint ex_externals s)) =
                Inr settingMatcher \<and>
              l = settings_route s settingMatcher)) \<and>
      (\<forall>(k, s) \<in> set ex_settings. \<exists>b \<in> set (Route.Routes root).
         Route.Receiver b = NotificationSettings.Receiver s))"
proof -
  have h1: "generateRouteFromSettings ex_externals ''default'' ex_settings = (ex_route, None)"
    by code_simp
  have h2: "distinct (map fst ex_settings)"
    by (simp add: ex_settings_def)
  have d: "IsAllDefault ex_slack_default \<and> IsAllDefault ex_email_default \<and> \<not> IsAllDefault ex_slack_wait"
    by (simp add: IsAllDefault_def ex_slack_default_def ex_email_default_def ex_slack_wait_def)
  show ?thesis
    using h1 h2 d generateRouteFromSettings_all_default_no_leaf [OF h1 h2]
    by (intro conjI) simp_all
qed

subsection \<open>When no matcher fails\<close>

lemma receiverRoute_for_ok:
  assumes "\<forall>n v. \<exists>m. NewMatcher E MatchEqual n v = Inr m"
  shows "\<exists>r. receiverRoute_for E s st = Inr r"
proof -
  obtain m where "NewMatcher E MatchEqual (AutogeneratedRouteReceiverNameLabel E)
      (NotificationSettings.Receiver s) = Inr m"
    using assms by blast
  then show ?thesis
    by (cases st) (simp add: receiverRoute_for_def split: option.splits)
qed

lemma loop_body_ok:
  assumes "\<forall>n v. \<exists>m. NewMatcher E MatchEqual n v = Inr m"
  shows "\<exists>st'. loop_body E settings k st = Inr st'"
proof -
  let ?s = "index_settings settings k"
  obtain r where r: "receiverRoute_for E ?s st = Inr r"
    using receiverRoute_for_ok [OF assms] by blast
  obtain sm where "NewMatcher E MatchEqual (AutogeneratedRouteSettingsHashLabel E)
      (Fingerprint_String E (externals.Fingerprint E ?s)) = Inr sm"
    using assms by blast
  with r show ?thesis
    by (cases r) (simp add: loop_body_def Let_def)
qed

lemma settings_loop_ok:
  assumes "\<forall>n v. \<exists>m. NewMatcher E MatchEqual n v = Inr m"
  shows "\<exists>st'. settings_loop E settings keys st = Inr st'"
proof (induction keys arbitrary: st)
  case Nil
  then show ?case by simp
next
  case (Cons k keys)
  obtain st1 where "loop_body E settings k st = Inr st1"
    using loop_body_ok [OF assms] by blast
  with Cons.IH [of st1] show ?case by simp
qed

lemma generateRouteFromSettings_ok:
  assumes "\<forall>n v. \<exists>m. NewMatcher E MatchEqual n v = Inr m"
  shows "snd (generateRouteFromSettings E defaultReceiver settings) = None"
proof -
  obtain rm where rm: "NewMatcher E MatchEqual (AutogeneratedRouteLabel E) ''true'' = Inr rm"
    using assms by blast
  obtain st' where "settings_loop E settings (sort (map fst settings)) (Map.empty, []) = Inr st'"
    using settings_loop_ok [OF assms] by blast
  with rm show ?thesis
    by (cases st') (simp add: generateRouteFromSettings_def Let_def)
qed


section \<open>Properties of the collection\<close>

lemma first_seen_append: "first_seen E (xs @ ys) ns = first_seen E ys (first_seen E xs ns)"
  by (induction xs arbitrary: ns) simp_all

lemma rule_loop_first_seen:
  "fst (rule_loop V E ruleKey ss (ns, lg)) = first_seen E (filter (\<lambda>s. Validate V s = None) ss) ns"
  by (induction ss arbitrary: ns lg) (simp_all add: Let_def split: option.splits)

lemma rules_loop_first_seen:
  "fst (rules_loop V E settings st) = first_seen E (valid_list V settings) (fst st)"
proof (induction settings arbitrary: st)
  case Nil
  then show ?case by (simp add: valid_list_def)
next
  case (Cons a settings)
  obtain ruleKey ss where a: "a = (ruleKey, ss)" by (cases a)
  obtain ns lg where st: "st = (ns, lg)" by (cases st)
  have "fst (rules_loop V E (a # settings) st) =
      first_seen E (valid_list V settings) (fst (rule_loop V E ruleKey ss (ns, lg)))"
    by (simp add: a st Cons.IH)
  also have "\<dots> = first_seen E (valid_list V settings) (first_seen E (filter (\<lambda>s. Validate V s = None) ss) ns)"
    by (simp only: rule_loop_first_seen)
  also have "\<dots> = first_seen E (valid_list V (a # settings)) (fst st)"
    by (simp add: a st valid_list_def first_seen_append)
  finally show ?case .
qed

lemma first_seen_keyed:
  "keyed_by_fingerprint E ns \<Longrightarrow> keyed_by_fingerprint E (first_seen E xs ns)"
proof (induction xs arbitrary: ns)
  case Nil
  then show ?case by simp
next
  case (Cons s xs)
  show ?case
  proof (cases "map_of ns (externals.Fingerprint E s) \<noteq> None")
    case True
    then show ?thesis using Cons by simp
  next
    case False
    then have "externals.Fingerprint E s \<notin> fst ` set ns"
      by (simp add: map_of_eq_None_iff)
    with Cons.prems have "keyed_by_fingerprint E (ns @ [(externals.Fingerprint E s, s)])"
      by (auto simp: keyed_by_fingerprint_def)
    then have "keyed_by_fingerprint E (first_seen E xs (ns @ [(externals.Fingerprint E s, s)]))"
      by (rule Cons.IH)
    with False show ?thesis by simp
  qed
qed

lemma first_seen_keys:
  "fst ` set (first_seen E xs ns) = fst ` set ns \<union> externals.Fingerprint E ` set xs"
proof (induction xs arbitrary: ns)
  case Nil
  then show ?case by simp
next
  case (Cons s xs)
  show ?case
  proof (cases "map_of ns (externals.Fingerprint E s) \<noteq> None")
    case True
    then have "externals.Fingerprint E s \<in> fst ` set ns"
      by (simp add: map_of_eq_None_iff)
    with True show ?thesis by (auto simp: Cons.IH)
  next
    case False
    then show ?thesis by (auto simp: Cons.IH)
  qed
qed

lemma first_seen_values:
  "snd ` set (first_seen E xs ns) \<subseteq> snd ` set ns \<union> set xs"
proof (induction xs arbitrary: ns)
  case Nil
  then show ?case by simp
next
  case (Cons s xs)
  show ?case
  proof (cases "map_of ns (externals.Fingerprint E s) \<noteq> None")
    case True
    then show ?thesis using Cons.IH [of ns] by auto
  next
    case False
    then show ?thesis using Cons.IH [of "ns @ [(externals.Fingerprint E s, s)]"] by auto
  qed
qed

lemma first_seen_empty: "first_seen E xs ns = [] \<longleftrightarrow> ns = [] \<and> xs = []"
proof
  assume e: "first_seen E xs ns = []"
  have "fst ` set (first_seen E xs ns) = fst ` set ns \<union> externals.Fingerprint E ` set xs"
    by (rule first_seen_keys)
  with e show "ns = [] \<and> xs = []" by simp
next
  assume "ns = [] \<and> xs = []"
  then show "first_seen E xs ns = []" by simp
qed

lemma valid_list_filter:
  "valid_list V (map (\<lambda>(k, ss). (k, filter (\<lambda>s. Validate V s = None) ss)) settings) = valid_list V settings"
  by (induction settings) (auto simp: valid_list_def)

lemma valid_list_set:
  "s \<in> set (valid_list V settings) \<longleftrightarrow>
     (\<exists>e \<in> set settings. s \<in> set (snd e) \<and> Validate V s = None)"
  by (auto simp: valid_list_def)

lemma one_entry:
  assumes "distinct (map f xs)" and "a \<in> f ` set xs"
  shows "length (filter (\<lambda>x. f x = a) xs) = 1"
  using assms
proof (induction xs)
  case Nil
  then show ?case by simp
next
  case (Cons x xs)
  show ?case
  proof (cases "f x = a")
    case True
    from Cons.prems(1) have "f x \<notin> f ` set xs" by simp
    then have "\<forall>y \<in> set xs. f y \<noteq> f x" by (metis imageI)
    with True have "\<forall>y \<in> set xs. f y \<noteq> a" by simp
    then have "filter (\<lambda>x. f x = a) xs = []" by (simp add: filter_empty_conv)
    with True show ?thesis by simp
  next
    case False
    with Cons show ?thesis by auto
  qed
qed

lemma collected_keyed:
  "keyed_by_fingerprint E (fst (rules_loop V E settings ([], lg)))"
proof -
  have "keyed_by_fingerprint E []" by (simp add: keyed_by_fingerprint_def)
  then show ?thesis by (simp add: rules_loop_first_seen first_seen_keyed)
qed

lemma collected_empty_iff:
  "fst (rules_loop V E settings ([], lg)) = [] \<longleftrightarrow>
     (\<forall>(ruleKey, ruleSettings) \<in> set settings. \<forall>s \<in> set ruleSettings. Validate V s \<noteq> None)"
proof -
  have "fst (rules_loop V E settings ([], lg)) = [] \<longleftrightarrow> set (valid_list V settings) = {}"
    by (simp add: rules_loop_first_seen first_seen_empty)
  also have "\<dots> \<longleftrightarrow> (\<forall>s. s \<notin> set (valid_list V settings))"
    by auto
  also have "\<dots> \<longleftrightarrow> (\<forall>(ruleKey, ruleSettings) \<in> set settings. \<forall>s \<in> set ruleSettings. Validate V s \<noteq> None)"
    by (simp only: valid_list_set) (auto simp: case_prod_unfold)
  finally show ?thesis .
qed

lemma rule_loop_log:
  "snd (rule_loop V E ruleKey ss (ns, lg)) =
     lg @ concat (map (\<lambda>s. case Validate V s of
                           None \<Rightarrow> []
                         | Some err \<Rightarrow> [(''Rule notification settings are invalid. Skipping'', ruleKey, err)]) ss)"
  by (induction ss arbitrary: ns lg) (simp_all add: Let_def split: option.splits)

lemma rules_loop_log:
  "snd (rules_loop V E settings st) = snd st @ invalid_log V settings"
proof (induction settings arbitrary: st)
  case Nil
  then show ?case by (simp add: invalid_log_def)
next
  case (Cons a settings)
  obtain ruleKey ss where a: "a = (ruleKey, ss)" by (cases a)
  obtain ns lg where st: "st = (ns, lg)" by (cases st)
  have "snd (rules_loop V E (a # settings) st) =
      snd (rule_loop V E ruleKey ss (ns, lg)) @ invalid_log V settings"
    by (simp add: a st Cons.IH)
  then show ?case
    by (simp add: rule_loop_log a st invalid_log_def)
qed

lemma newAutogeneratedRoute_store_ok:
  assumes "ListNotificationSettings store orgId = (settings, None)"
  shows "fst (newAutogeneratedRoute logger orgId store E defaultReceiver validator) =
     (let notificationSettings = first_seen E (valid_list validator settings) [] in
      if notificationSettings = [] then (autogeneratedRoute_zero, None)
      else (case generateRouteFromSettings E defaultReceiver notificationSettings of
              (newAutogenRoute, Some err) \<Rightarrow>
                (autogeneratedRoute_zero, Some (Errorf_w ''failed to create autogenerated route: '' err))
            | (newAutogenRoute, None) \<Rightarrow> (newAutogenRoute, None)))"
proof -
  obtain ns lg where l: "rules_loop validator E settings ([], logger) = (ns, lg)"
    by (cases "rules_loop validator E settings ([], logger)")
  then have "ns = first_seen E (valid_list validator settings) []"
    using rules_loop_first_seen [of validator E settings "([], logger)"] by simp
  with l show ?thesis
    by (simp add: newAutogeneratedRoute_def assms Let_def split: prod.splits option.splits)
qed


text \<open>
  C6. In the map collected from any store result, no two entries share a fingerprint, and
  every key is the fingerprint of its value. Every settings object of the store result that
  passes the validator has exactly one entry with its fingerprint, however many times it
  occurs. In particular, when all the settings objects of all the rules are the same valid
  object, the collected map is that single entry.
\<close>

theorem collected_settings_unique:
  "distinct (map (\<lambda>(k, v). externals.Fingerprint E v) (fst (rules_loop validator E settings ([], logger)))) \<and>
   (\<forall>(k, v) \<in> set (fst (rules_loop validator E settings ([], logger))). k = externals.Fingerprint E v) \<and>
   (\<forall>(ruleKey, ruleSettings) \<in> set settings. \<forall>s \<in> set ruleSettings. Validate validator s = None \<longrightarrow>
      length (filter (\<lambda>(k, v). externals.Fingerprint E v = externals.Fingerprint E s)
                (fst (rules_loop validator E settings ([], logger)))) = 1) \<and>
   ((\<forall>(ruleKey, ruleSettings) \<in> set settings. \<forall>x \<in> set ruleSettings. x = s) \<and>
    (\<exists>(ruleKey, ruleSettings) \<in> set settings. ruleSettings \<noteq> []) \<and> Validate validator s = None \<longrightarrow>
      fst (rules_loop validator E settings ([], logger)) = [(externals.Fingerprint E s, s)])"
proof -
  define ns where "ns = fst (rules_loop validator E settings ([], logger))"
  have keyed: "keyed_by_fingerprint E ns"
    unfolding ns_def by (rule collected_keyed)
  then have d: "distinct (map fst ns)" and k: "\<forall>(k, v) \<in> set ns. externals.Fingerprint E v = k"
    by (simp_all add: keyed_by_fingerprint_def)
  from k have same: "map (\<lambda>(k, v). externals.Fingerprint E v) ns = map fst ns"
    by (intro map_cong) auto
  have keys: "fst ` set ns = externals.Fingerprint E ` set (valid_list validator settings)"
    by (simp add: ns_def rules_loop_first_seen first_seen_keys)
  have vals: "snd ` set ns \<subseteq> set (valid_list validator settings)"
    using first_seen_values [of E "valid_list validator settings" "[]"]
    by (simp add: ns_def rules_loop_first_seen)
  have c1: "distinct (map (\<lambda>(k, v). externals.Fingerprint E v) ns)"
    using d by (simp only: same)
  have c2: "\<forall>(k, v) \<in> set ns. k = externals.Fingerprint E v"
    using k by auto
  have c3: "\<forall>(ruleKey, ruleSettings) \<in> set settings. \<forall>s \<in> set ruleSettings. Validate validator s = None \<longrightarrow>
      length (filter (\<lambda>(k, v). externals.Fingerprint E v = externals.Fingerprint E s) ns) = 1"
  proof (intro ballI impI, clarify)
    fix ruleKey ruleSettings s
    assume "(ruleKey, ruleSettings) \<in> set settings" "s \<in> set ruleSettings" "Validate validator s = None"
    then have "s \<in> set (valid_list validator settings)"
      by (simp only: valid_list_set) force
    then have "externals.Fingerprint E s \<in> (\<lambda>(k, v). externals.Fingerprint E v) ` set ns"
      using keys k by force
    with c1 show "length (filter (\<lambda>(k, v). externals.Fingerprint E v = externals.Fingerprint E s) ns) = 1"
      using one_entry [of "\<lambda>(k, v). externals.Fingerprint E v" ns "externals.Fingerprint E s"]
      by (simp add: case_prod_unfold)
  qed
  have c4: "(\<forall>(ruleKey, ruleSettings) \<in> set settings. \<forall>x \<in> set ruleSettings. x = s) \<and>
    (\<exists>(ruleKey, ruleSettings) \<in> set settings. ruleSettings \<noteq> []) \<and> Validate validator s = None \<longrightarrow>
      ns = [(externals.Fingerprint E s, s)]"
  proof
    assume a: "(\<forall>(ruleKey, ruleSettings) \<in> set settings. \<forall>x \<in> set ruleSettings. x = s) \<and>
      (\<exists>(ruleKey, ruleSettings) \<in> set settings. ruleSettings \<noteq> []) \<and> Validate validator s = None"
    then have eq: "\<forall>e \<in> set settings. \<forall>x \<in> set (snd e). x = s"
      by (auto simp: case_prod_unfold)
    then have all: "\<forall>x \<in> set (valid_list validator settings). x = s"
      by (auto simp: valid_list_set)
    from a obtain e where e: "e \<in> set settings" "snd e \<noteq> []"
      by (auto simp: case_prod_unfold)
    then obtain x where x: "x \<in> set (snd e)"
      by (cases "snd e") auto
    with e eq have "s \<in> set (snd e)" by auto
    with e a have "s \<in> set (valid_list validator settings)"
      by (auto simp: valid_list_set)
    with all have "set (valid_list validator settings) = {s}" by blast
    with keys have fk: "fst ` set ns = {externals.Fingerprint E s}" by simp
    then have ne: "ns \<noteq> []" by auto
    from fk have "\<forall>e \<in> set ns. fst e = externals.Fingerprint E s" by auto
    moreover from vals all have "\<forall>e \<in> set ns. snd e = s" by auto
    ultimately have el: "\<forall>e \<in> set ns. e = (externals.Fingerprint E s, s)"
      by (simp add: prod_eq_iff)
    show "ns = [(externals.Fingerprint E s, s)]"
    proof (cases ns)
      case Nil
      with ne show ?thesis by simp
    next
      case (Cons e rest)
      have "rest = []"
      proof (cases rest)
        case Nil
        then show ?thesis .
      next
        case (Cons e' rest')
        with \<open>ns = e # rest\<close> el have "e = e'" by simp
        with \<open>ns = e # rest\<close> Cons d show ?thesis by simp
      qed
      with Cons el show ?thesis by simp
    qed
  qed
  show ?thesis
    using c1 c2 c3 c4 unfolding ns_def by (intro conjI)
qed


theorem collected_settings_unique_witness:
  "concat (map snd ex_rules_identical) = [ex_slack_default, ex_slack_default, ex_slack_default] \<and>
   (\<exists>(ruleKey, ruleSettings) \<in> set ex_rules_identical. ruleSettings \<noteq> []) \<and>
   Validate ex_validator ex_slack_default = None \<and>
   fst (rules_loop ex_validator ex_externals ex_rules_identical ([], [])) =
     [(externals.Fingerprint ex_externals ex_slack_default, ex_slack_default)]"
proof -
  have h0: "concat (map snd ex_rules_identical) = [ex_slack_default, ex_slack_default, ex_slack_default]"
    by (simp add: ex_rules_identical_def)
  have h1: "\<forall>(ruleKey, ruleSettings) \<in> set ex_rules_identical. \<forall>x \<in> set ruleSettings. x = ex_slack_default"
    by (simp add: ex_rules_identical_def)
  have h2: "\<exists>(ruleKey, ruleSettings) \<in> set ex_rules_identical. ruleSettings \<noteq> []"
    by (simp add: ex_rules_identical_def)
  have h3: "Validate ex_validator ex_slack_default = None"
    by (simp add: ex_validator_def ex_slack_default_def)
  have "fst (rules_loop ex_validator ex_externals ex_rules_identical ([], [])) =
      [(externals.Fingerprint ex_externals ex_slack_default, ex_slack_default)]"
    using h1 h2 h3 collected_settings_unique
      [where E = ex_externals and validator = ex_validator and settings = ex_rules_identical
         and logger = "[]" and s = ex_slack_default]
    by blast
  with h0 h2 h3 show ?thesis by (intro conjI)
qed

text \<open>
  C7. When the store query succeeds and the collected map is empty, which is the case
  exactly when every settings object of every rule fails the validator (and so also when
  there is none), \<^verbatim>\<open>newAutogeneratedRoute\<close> returns the empty result, with a nil route and
  fingerprint zero, and a nil error.
\<close>

theorem newAutogeneratedRoute_empty:
  assumes "ListNotificationSettings store orgId = (settings, None)"
  shows "(fst (rules_loop validator E settings ([], logger)) = [] \<longleftrightarrow>
            (\<forall>(ruleKey, ruleSettings) \<in> set settings. \<forall>s \<in> set ruleSettings. Validate validator s \<noteq> None)) \<and>
         (fst (rules_loop validator E settings ([], logger)) = [] \<longrightarrow>
            fst (newAutogeneratedRoute logger orgId store E defaultReceiver validator) =
              (\<lparr>autogeneratedRoute.Route = None, Fingerprint = 0\<rparr>, None))"
proof
  show "fst (rules_loop validator E settings ([], logger)) = [] \<longleftrightarrow>
            (\<forall>(ruleKey, ruleSettings) \<in> set settings. \<forall>s \<in> set ruleSettings. Validate validator s \<noteq> None)"
    by (rule collected_empty_iff)
  show "fst (rules_loop validator E settings ([], logger)) = [] \<longrightarrow>
            fst (newAutogeneratedRoute logger orgId store E defaultReceiver validator) =
              (\<lparr>autogeneratedRoute.Route = None, Fingerprint = 0\<rparr>, None)"
    by (simp add: newAutogeneratedRoute_store_ok [OF assms] rules_loop_first_seen
        autogeneratedRoute_zero_def)
qed


theorem newAutogeneratedRoute_empty_witness:
  "ListNotificationSettings ex_store 2 = (ex_rules_invalid, None) \<and>
   fst (rules_loop ex_validator ex_externals ex_rules_invalid ([], [])) = [] \<and>
   fst (newAutogeneratedRoute [] 2 ex_store ex_externals ''default'' ex_validator) =
     (\<lparr>autogeneratedRoute.Route = None, Fingerprint = 0\<rparr>, None)"
proof -
  have h1: "ListNotificationSettings ex_store 2 = (ex_rules_invalid, None)"
    by code_simp
  have h2: "fst (rules_loop ex_validator ex_externals ex_rules_invalid ([], [])) = []"
    by code_simp
  have "fst (newAutogeneratedRoute [] 2 ex_store ex_externals ''default'' ex_validator) =
      (\<lparr>autogeneratedRoute.Route = None, Fingerprint = 0\<rparr>, None)"
    using h2 newAutogeneratedRoute_empty
      [OF h1, where validator = ex_validator and E = ex_externals and logger = "[]"
         and defaultReceiver = "''default''"]
    by blast
  with h1 h2 show ?thesis by (intro conjI)
qed

text \<open>
  C9. When the store query succeeds, the value and the error that
  \<^verbatim>\<open>newAutogeneratedRoute\<close> returns are those it returns for the same store result without
  the settings objects that fail the validator: such an object is skipped, and all it leaves
  is one log entry with the key of its rule and the error of the validator. If moreover no
  matcher construction fails, the error returned is nil. When the store query fails, the
  result is the empty route and the error of the store wrapped with the message
  \<^verbatim>\<open>failed to list alert rules\<close>, and nothing is logged.
\<close>

theorem newAutogeneratedRoute_errors:
  "(ListNotificationSettings store orgId = (settings, None) \<longrightarrow>
      fst (newAutogeneratedRoute logger orgId store E defaultReceiver validator) =
        fst (newAutogeneratedRoute logger orgId
               \<lparr>ListNotificationSettings = \<lambda>orgID. (valid_only validator settings, None)\<rparr>
               E defaultReceiver validator) \<and>
      snd (newAutogeneratedRoute logger orgId store E defaultReceiver validator) =
        logger @ invalid_log validator settings) \<and>
   (ListNotificationSettings store orgId = (settings, None) \<and>
    (\<forall>n v. \<exists>m. NewMatcher E MatchEqual n v = Inr m) \<longrightarrow>
      snd (fst (newAutogeneratedRoute logger orgId store E defaultReceiver validator)) = None) \<and>
   (ListNotificationSettings store orgId = (settings, Some err) \<longrightarrow>
      newAutogeneratedRoute logger orgId store E defaultReceiver validator =
        ((\<lparr>autogeneratedRoute.Route = None, Fingerprint = 0\<rparr>,
          Some (Errorf_w ''failed to list alert rules: '' err)), logger))"
proof (intro conjI impI)
  assume ok: "ListNotificationSettings store orgId = (settings, None)"
  have v: "valid_list validator (valid_only validator settings) = valid_list validator settings"
    unfolding valid_only_def by (rule valid_list_filter)
  show "fst (newAutogeneratedRoute logger orgId store E defaultReceiver validator) =
        fst (newAutogeneratedRoute logger orgId
               \<lparr>ListNotificationSettings = \<lambda>orgID. (valid_only validator settings, None)\<rparr>
               E defaultReceiver validator)"
    by (simp add: newAutogeneratedRoute_store_ok [OF ok]
        newAutogeneratedRoute_store_ok [of _ _ "valid_only validator settings"] v)
  obtain ns lg where l: "rules_loop validator E settings ([], logger) = (ns, lg)"
    by (cases "rules_loop validator E settings ([], logger)")
  then have "lg = logger @ invalid_log validator settings"
    using rules_loop_log [of validator E settings "([], logger)"] by simp
  with l show "snd (newAutogeneratedRoute logger orgId store E defaultReceiver validator) =
        logger @ invalid_log validator settings"
    by (simp add: newAutogeneratedRoute_def ok split: prod.splits option.splits)
next
  assume a: "ListNotificationSettings store orgId = (settings, None) \<and>
    (\<forall>n v. \<exists>m. NewMatcher E MatchEqual n v = Inr m)"
  then have ok: "ListNotificationSettings store orgId = (settings, None)"
    and tot: "\<forall>n v. \<exists>m. NewMatcher E MatchEqual n v = Inr m"
    by simp_all
  have "snd (generateRouteFromSettings E defaultReceiver (first_seen E (valid_list validator settings) [])) = None"
    using tot by (rule generateRouteFromSettings_ok)
  then obtain r where "generateRouteFromSettings E defaultReceiver
      (first_seen E (valid_list validator settings) []) = (r, None)"
    by (cases "generateRouteFromSettings E defaultReceiver (first_seen E (valid_list validator settings) [])") simp
  then show "snd (fst (newAutogeneratedRoute logger orgId store E defaultReceiver validator)) = None"
    by (simp add: newAutogeneratedRoute_store_ok [OF ok] Let_def)
next
  assume "ListNotificationSettings store orgId = (settings, Some err)"
  then show "newAutogeneratedRoute logger orgId store E defaultReceiver validator =
        ((\<lparr>autogeneratedRoute.Route = None, Fingerprint = 0\<rparr>,
          Some (Errorf_w ''failed to list alert rules: '' err)), logger)"
    by (simp add: newAutogeneratedRoute_def autogeneratedRoute_zero_def)
qed


theorem newAutogeneratedRoute_errors_witness:
  "ListNotificationSettings ex_store 1 = (ex_rules, None) \<and>
   (\<forall>n v. \<exists>m. NewMatcher ex_externals MatchEqual n v = Inr m) \<and>
   ListNotificationSettings ex_store 3 = ([], Some (errors_New ''database is locked'')) \<and>
   Validate ex_validator ex_no_receiver = Some (errors_New ''receiver must be specified'') \<and>
   newAutogeneratedRoute [] 1 ex_store ex_externals ''default'' ex_validator =
     ((ex_route, None),
      [(''Rule notification settings are invalid. Skipping'', ex_rule_a,
        errors_New ''receiver must be specified'')]) \<and>
   fst (newAutogeneratedRoute [] 1 ex_store ex_externals ''default'' ex_validator) =
     fst (newAutogeneratedRoute [] 1
            \<lparr>ListNotificationSettings = \<lambda>orgID. (valid_only ex_validator ex_rules, None)\<rparr>
            ex_externals ''default'' ex_validator) \<and>
   snd (newAutogeneratedRoute [] 1 ex_store ex_externals ''default'' ex_validator) =
     [] @ invalid_log ex_validator ex_rules \<and>
   snd (fst (newAutogeneratedRoute [] 1 ex_store ex_externals ''default'' ex_validator)) = None \<and>
   newAutogeneratedRoute [] 3 ex_store ex_externals ''default'' ex_validator =
     ((\<lparr>autogeneratedRoute.Route = None, Fingerprint = 0\<rparr>,
       Some (Errorf_w ''failed to list alert rules: '' (errors_New ''database is locked''))), [])"
proof -
  have h1: "ListNotificationSettings ex_store 1 = (ex_rules, None)"
    by code_simp
  have h2: "\<forall>n v. \<exists>m. NewMatcher ex_externals MatchEqual n v = Inr m"
    by (simp add: ex_externals_def)
  have h3: "ListNotificationSettings ex_store 3 = ([], Some (errors_New ''database is locked''))"
    by code_simp
  have h4: "Validate ex_validator ex_no_receiver = Some (errors_New ''receiver must be specified'')"
    by code_simp
  have run: "newAutogeneratedRoute [] 1 ex_store ex_externals ''default'' ex_validator =
     ((ex_route, None),
      [(''Rule notification settings are invalid. Skipping'', ex_rule_a,
        errors_New ''receiver must be specified'')])"
    by code_simp
  note ok = newAutogeneratedRoute_errors
    [where store = ex_store and orgId = 1 and settings = ex_rules and logger = "[]"
       and E = ex_externals and defaultReceiver = "''default''" and validator = ex_validator]
  note failed = newAutogeneratedRoute_errors
    [where store = ex_store and orgId = 3 and settings = "[]" and logger = "[]"
       and E = ex_externals and defaultReceiver = "''default''" and validator = ex_validator
       and err = "errors_New ''database is locked''"]
  from ok h1 have c1: "fst (newAutogeneratedRoute [] 1 ex_store ex_externals ''default'' ex_validator) =
     fst (newAutogeneratedRoute [] 1
            \<lparr>ListNotificationSettings = \<lambda>orgID. (valid_only ex_validator ex_rules, None)\<rparr>
            ex_externals ''default'' ex_validator)"
    and c2: "snd (newAutogeneratedRoute [] 1 ex_store ex_externals ''default'' ex_validator) =
     [] @ invalid_log ex_validator ex_rules"
    by blast+
  from ok h1 h2 have c3: "snd (fst (newAutogeneratedRoute [] 1 ex_store ex_externals ''default'' ex_validator)) = None"
    by blast
  from failed h3 have c4: "newAutogeneratedRoute [] 3 ex_store ex_externals ''default'' ex_validator =
     ((\<lparr>autogeneratedRoute.Route = None, Fingerprint = 0\<rparr>,
       Some (Errorf_w ''failed to list alert rules: '' (errors_New ''database is locked''))), [])"
    by blast
  from h1 h2 h3 h4 run c1 c2 c3 c4 show ?thesis by (intro conjI)
qed

section \<open>Properties of the merge\<close>

text \<open>
  C3. Merging a generated route that is not nil into a configuration whose root route has
  \<open>M\<close> child routes succeeds; the root then has \<open>M + 1\<close> child routes: the generated route
  first, with the receiver of the root as its receiver and nothing else changed, followed by
  the \<open>M\<close> child routes the root had, in their order. The receiver fields of the root are
  untouched.
\<close>

theorem AddToConfig_prepends_generated:
  assumes "autogeneratedRoute.Route a = Some g"
    and "PostableApiAlertingConfig.Route (AlertmanagerConfig config) = Some root"
    and "length (Route.Routes root) = M"
  shows "\<exists>a' config' root' g'.
           AddToConfig (Some a) config = ((Some a', config'), None) \<and>
           PostableApiAlertingConfig.Route (AlertmanagerConfig config') = Some root' \<and>
           autogeneratedRoute.Route a' = Some g' \<and>
           length (Route.Routes root') = M + 1 \<and>
           Route.Routes root' = g' # Route.Routes root \<and>
           g' = set_Receiver g (Route.Receiver root) \<and>
           Route.Receiver g' = Route.Receiver root \<and>
           Route.Routes g' = Route.Routes g \<and>
           Route.Receiver root' = Route.Receiver root"
  using assms
  by (simp add: AddToConfig_def Let_def Receiver_set_Receiver Routes_set_Receiver
      Routes_set_Routes Receiver_set_Routes)

theorem AddToConfig_prepends_generated_witness:
  "autogeneratedRoute.Route ex_generated = Some ex_generated_root \<and>
   PostableApiAlertingConfig.Route (AlertmanagerConfig ex_config) = Some ex_root \<and>
   length (Route.Routes ex_root) = 1 \<and>
   (\<exists>a' config' root' g'.
      AddToConfig (Some ex_generated) ex_config = ((Some a', config'), None) \<and>
      PostableApiAlertingConfig.Route (AlertmanagerConfig config') = Some root' \<and>
      autogeneratedRoute.Route a' = Some g' \<and>
      length (Route.Routes root') = 1 + 1 \<and>
      Route.Routes root' = g' # Route.Routes ex_root \<and>
      g' = set_Receiver ex_generated_root (Route.Receiver ex_root) \<and>
      Route.Receiver g' = Route.Receiver ex_root \<and>
      Route.Routes g' = Route.Routes ex_generated_root \<and>
      Route.Receiver root' = Route.Receiver ex_root)"
proof -
  have h1: "autogeneratedRoute.Route ex_generated = Some ex_generated_root"
    by (simp add: ex_generated_def)
  have h2: "PostableApiAlertingConfig.Route (AlertmanagerConfig ex_config) = Some ex_root"
    by (simp add: ex_config_def)
  have h3: "length (Route.Routes ex_root) = 1"
    by (simp add: ex_root_def)
  show ?thesis
    using h1 h2 h3 AddToConfig_prepends_generated [OF h1 h2 h3] by blast
qed

text \<open>
  C8. When the root route of the configuration is nil, merging returns the configuration
  error and changes neither the configuration nor the generated route. When the root route
  is present and the generated route is nil (a nil receiver, or a nil \<^verbatim>\<open>Route\<close> field),
  merging returns no error and changes nothing either.
\<close>

theorem AddToConfig_error_and_noop:
  "(PostableApiAlertingConfig.Route (AlertmanagerConfig config) = None \<longrightarrow>
      AddToConfig ar config =
        ((ar, config),
         Some (errors_New ''invalid Alertmanager configuration. The root route does not exist''))) \<and>
   (PostableApiAlertingConfig.Route (AlertmanagerConfig config) \<noteq> None \<and>
    (ar = None \<or> (\<exists>a. ar = Some a \<and> autogeneratedRoute.Route a = None)) \<longrightarrow>
      AddToConfig ar config = ((ar, config), None))"
  by (auto simp: AddToConfig_def)

theorem AddToConfig_error_and_noop_witness:
  "PostableApiAlertingConfig.Route (AlertmanagerConfig ex_config_no_root) = None \<and>
   AddToConfig (Some ex_generated) ex_config_no_root =
     ((Some ex_generated, ex_config_no_root),
      Some (errors_New ''invalid Alertmanager configuration. The root route does not exist'')) \<and>
   PostableApiAlertingConfig.Route (AlertmanagerConfig ex_config) \<noteq> None \<and>
   autogeneratedRoute.Route autogeneratedRoute_zero = None \<and>
   AddToConfig (Some autogeneratedRoute_zero) ex_config = ((Some autogeneratedRoute_zero, ex_config), None) \<and>
   AddToConfig None ex_config = ((None, ex_config), None)"
proof -
  have h1: "PostableApiAlertingConfig.Route (AlertmanagerConfig ex_config_no_root) = None"
    by (simp add: ex_config_no_root_def)
  have h2: "PostableApiAlertingConfig.Route (AlertmanagerConfig ex_config) \<noteq> None"
    by (simp add: ex_config_def)
  have h3: "autogeneratedRoute.Route autogeneratedRoute_zero = None"
    by (simp add: autogeneratedRoute_zero_def)
  show ?thesis
    using h1 h2 h3
      AddToConfig_error_and_noop [of ex_config_no_root "Some ex_generated"]
      AddToConfig_error_and_noop [of ex_config "Some autogeneratedRoute_zero"]
      AddToConfig_error_and_noop [of ex_config None]
    by simp
qed

text \<open>
  C10. The check for a missing root route comes first: whenever the root route of the
  configuration is nil, \<^verbatim>\<open>AddToConfig\<close> returns the configuration error, whatever the
  generated route is (a nil receiver, a nil route or a route).
\<close>

theorem AddToConfig_missing_root_first:
  "PostableApiAlertingConfig.Route (AlertmanagerConfig config) = None \<Longrightarrow>
   snd (AddToConfig ar config) =
     Some (errors_New ''invalid Alertmanager configuration. The root route does not exist'')"
  by (simp add: AddToConfig_def)

theorem AddToConfig_missing_root_first_witness:
  "PostableApiAlertingConfig.Route (AlertmanagerConfig ex_config_no_root) = None \<and>
   snd (AddToConfig None ex_config_no_root) =
     Some (errors_New ''invalid Alertmanager configuration. The root route does not exist'') \<and>
   snd (AddToConfig (Some autogeneratedRoute_zero) ex_config_no_root) =
     Some (errors_New ''invalid Alertmanager configuration. The root route does not exist'')"
proof -
  have h: "PostableApiAlertingConfig.Route (AlertmanagerConfig ex_config_no_root) = None"
    by (simp add: ex_config_no_root_def)
  show ?thesis
    using h AddToConfig_missing_root_first [OF h, of None]
      AddToConfig_missing_root_first [OF h, of "Some autogeneratedRoute_zero"]
    by simp
qed

end
